theory Spec2Isabelle
  imports Complex_Main "HOL-Library.Multiset"
begin

section \<open>Data model\<close>

text \<open>
  Go strings are byte sequences: they are modelled as \<open>string\<close> (lists of 8-bit
  characters), and \<open>len\<close> is \<open>length\<close>. Go's \<open>int\<close> is 64 bits wide. Values that the
  code only compares or that are bounded by the length of a slice held in memory are modelled
  as unbounded \<open>int\<close>; the one subtraction that can leave the 64-bit range
  (\<open>diff.Line - 1\<close>) has its wrap-around written out with \<open>wrap64\<close>.
  A \<open>float64\<close> similarity or threshold is modelled by the real number it denotes.
\<close>

record Diff =
  diff_Line :: int
  diff_Search :: string
  diff_Replace :: string

record Edit =
  Start :: int
  End :: int
  Text :: string

definition wrap64 :: "int \<Rightarrow> int" where
  "wrap64 x = (x + 2 ^ 63) mod 2 ^ 64 - 2 ^ 63"

section \<open>Apply\<close>

text \<open>
  The two failures of \<open>Apply\<close>, each carrying the bounds its message prints:
  \<open>invalid edit range [%d,%d)\<close> and \<open>overlapping edits at [%d,%d)\<close>.
\<close>

datatype apply_error = InvalidRange int int | Overlapping int int

text \<open>
  \<open>sort.Slice(edits, func(i, j) { return edits[i].Start > edits[j].Start })\<close>:
  descending by \<open>Start\<close>. For fewer than 12 elements Go runs an insertion sort that never
  swaps equal neighbours, which is the stable order \<open>sort_key\<close> computes. For longer slices
  the order among edits with equal \<open>Start\<close> is unspecified by the library; the general
  theorems below that speak about all edit lists assume pairwise distinct \<open>Start\<close> values,
  for which the sorted order is unique.
\<close>

definition sort_Slice :: "Edit list \<Rightarrow> Edit list" where
  "sort_Slice edits = sort_key (\<lambda>e. - Start e) edits"

text \<open>
  The body of \<open>for _, e := range edits\<close>, with \<open>data\<close> and \<open>lastEnd\<close> threaded through.
  The two slice expressions \<open>data[:e.Start]\<close> and \<open>data[e.End:]\<close> are only reached after
  the range check \<open>0 \<le> Start \<le> End \<le> len(data)\<close>, so they cannot panic; the inner
  \<open>append\<close> copies the tail before the outer one writes, so the splice is
  \<open>data[:Start] + Text + data[End:]\<close>.
\<close>

fun apply_loop :: "string \<Rightarrow> int \<Rightarrow> Edit list \<Rightarrow> apply_error + string" where
  "apply_loop data lastEnd [] = Inr data"
| "apply_loop data lastEnd (e # es) =
     (if Start e < 0 \<or> End e < Start e \<or> End e > int (length data)
      then Inl (InvalidRange (Start e) (End e))
      else if End e > lastEnd
      then Inl (Overlapping (Start e) (End e))
      else apply_loop (take (nat (Start e)) data @ Text e @ drop (nat (End e)) data)
             (Start e) es)"

definition Apply :: "string \<Rightarrow> Edit list \<Rightarrow> apply_error + string" where
  "Apply source edits =
     (if length edits = 0 then Inr source
      else apply_loop source (int (length source)) (sort_Slice edits))"

text \<open>Vocabulary of the claims about \<open>Apply\<close>.\<close>

definition in_bounds :: "string \<Rightarrow> Edit \<Rightarrow> bool" where
  "in_bounds source e = (0 \<le> Start e \<and> Start e \<le> End e \<and> End e \<le> int (length source))"

text \<open>The half-open ranges \<open>[Start, End)\<close> of two edits share a byte position.\<close>

definition overlaps :: "Edit \<Rightarrow> Edit \<Rightarrow> bool" where
  "overlaps a b = (max (Start a) (Start b) < min (End a) (End b))"

text \<open>One range ends no later than the other begins.\<close>

definition separated :: "Edit \<Rightarrow> Edit \<Rightarrow> bool" where
  "separated a b = (End a \<le> Start b \<or> End b \<le> Start a)"

fun pairwise_separated :: "Edit list \<Rightarrow> bool" where
  "pairwise_separated [] = True"
| "pairwise_separated (e # es) = (list_all (separated e) es \<and> pairwise_separated es)"

text \<open>Length of the buffer after splicing one in-bounds edit into it.\<close>

definition spliced_len :: "string \<Rightarrow> Edit \<Rightarrow> int" where
  "spliced_len source e = int (length source) - (End e - Start e) + int (length (Text e))"

section \<open>Search\<close>

subsection \<open>Library functions used by the locator\<close>

text \<open>
  \<open>strings.SplitAfter(s, "\n")\<close> of the Go standard library: the pieces of \<open>s\<close> after each
  newline, every piece but the last ending in its newline, the last piece being what
  follows the final newline (empty when \<open>s\<close> is empty or ends in a newline). The first
  argument accumulates the piece being read.
\<close>

fun split_after :: "string \<Rightarrow> string \<Rightarrow> string list" where
  "split_after piece [] = [piece]"
| "split_after piece (c # cs) =
     (if c = CHR 0x0A then (piece @ [c]) # split_after [] cs
      else split_after (piece @ [c]) cs)"

definition SplitAfter :: "string \<Rightarrow> string list" where
  "SplitAfter s = split_after [] s"

text \<open>
  Modelled from the spec: \<open>levenshtein.ComputeDistance\<close> belongs to the third-party package
  \<open>github.com/agnivade/levenshtein\<close>, which is imported by the source but is not part of it.
  The spec describes it as the standard single-character insert/delete/substitute edit
  distance over raw bytes; that is the recurrence below.
\<close>

fun ComputeDistance :: "string \<Rightarrow> string \<Rightarrow> nat" where
  "ComputeDistance [] b = length b"
| "ComputeDistance (x # a) [] = length (x # a)"
| "ComputeDistance (x # a) (y # b) =
     min (min (ComputeDistance a (y # b) + 1) (ComputeDistance (x # a) b + 1))
         (ComputeDistance a b + (if x = y then 0 else 1))"

text \<open>
  Go checks every index and slice expression at run time and panics when it is out of
  range. The two accessors make that check a value, so that a panic of \<open>Search\<close> would be a
  result \<open>Inl\<close> of the model. The slice check is against the length of the list (the lines
  of the document), which is at most the capacity Go checks against.
\<close>

datatype panic = IndexOutOfRange | SliceBoundsOutOfRange

definition index_at :: "'a list \<Rightarrow> int \<Rightarrow> panic + 'a" where
  "index_at xs i =
     (if 0 \<le> i \<and> i < int (length xs) then Inr (xs ! nat i) else Inl IndexOutOfRange)"

definition slice_of :: "'a list \<Rightarrow> int \<Rightarrow> int \<Rightarrow> panic + 'a list" where
  "slice_of xs lo hi =
     (if 0 \<le> lo \<and> lo \<le> hi \<and> hi \<le> int (length xs)
      then Inr (take (nat (hi - lo)) (drop (nat lo) xs))
      else Inl SliceBoundsOutOfRange)"

subsection \<open>The functions of the source\<close>

definition trimSplit :: "string \<Rightarrow> string list" where
  "trimSplit s =
     (let lines = SplitAfter s
      in if length lines > 0 \<and> last lines = [] then butlast lines else lines)"

definition similarity :: "string \<Rightarrow> string \<Rightarrow> real" where
  "similarity a b =
     (if length a = 0 \<and> length b = 0 then 1
      else 1 - real (ComputeDistance a b) / real (max (length a) (length b)))"

text \<open>
  The table \<open>offsets\<close>: \<open>offsets[0] = 0\<close> and \<open>offsets[i+1] = offsets[i] + len(lines[i])\<close>.
\<close>

fun offsets_from :: "int \<Rightarrow> string list \<Rightarrow> int list" where
  "offsets_from off [] = [off]"
| "offsets_from off (l # ls) = off # offsets_from (off + int (length l)) ls"

text \<open>
  The block the loop of \<open>Search\<close> runs for the candidate above and again for the candidate
  below: join the \<open>nSearch\<close> lines from line \<open>i\<close>, compare, and build the edit on success.
  \<open>None\<close> is a candidate that was compared and rejected.
\<close>

definition candidate ::
  "string list \<Rightarrow> int list \<Rightarrow> Diff \<Rightarrow> int \<Rightarrow> real \<Rightarrow> int \<Rightarrow> panic + Edit option" where
  "candidate lines offsets diff nSearch threshold i =
     (case slice_of lines i (i + nSearch) of
        Inl p \<Rightarrow> Inl p
      | Inr chunk \<Rightarrow>
          if similarity (concat chunk) (diff_Search diff) \<ge> threshold
          then (case index_at offsets i of
                  Inl p \<Rightarrow> Inl p
                | Inr s \<Rightarrow>
                    (case index_at offsets (i + nSearch) of
                       Inl p \<Rightarrow> Inl p
                     | Inr e \<Rightarrow> Inr (Some \<lparr>Start = s, End = e, Text = diff_Replace diff\<rparr>)))
          else Inr None)"

text \<open>
  \<open>for radius := 0; ; radius++\<close>. The result \<open>Inr None\<close> is the source's
  \<open>(Edit{}, false)\<close>, \<open>Inr (Some e)\<close> its \<open>(e, true)\<close>.
\<close>

function Search_loop ::
  "string list \<Rightarrow> int list \<Rightarrow> Diff \<Rightarrow> int \<Rightarrow> real \<Rightarrow> int \<Rightarrow> int \<Rightarrow> panic + Edit option" where
  "Search_loop lines offsets diff nSearch threshold startIdx radius =
     (let left = startIdx - radius;
          triedL = (left \<ge> 0 \<and> left + nSearch \<le> int (length lines));
          right = startIdx + radius;
          triedR = (radius > 0 \<and> right + nSearch \<le> int (length lines))
      in case (if triedL then candidate lines offsets diff nSearch threshold left
               else Inr None) of
           Inl p \<Rightarrow> Inl p
         | Inr (Some e) \<Rightarrow> Inr (Some e)
         | Inr None \<Rightarrow>
             (case (if triedR then candidate lines offsets diff nSearch threshold right
                    else Inr None) of
                Inl p \<Rightarrow> Inl p
              | Inr (Some e) \<Rightarrow> Inr (Some e)
              | Inr None \<Rightarrow>
                  if \<not> (triedL \<or> triedR) then Inr None
                  else Search_loop lines offsets diff nSearch threshold startIdx
                         (radius + 1)))"
  by pat_completeness auto
termination
  by (relation "measure (\<lambda>(lines, offsets, diff, nSearch, threshold, startIdx, radius).
        nat (max startIdx (int (length lines) - nSearch - startIdx) + 1 - radius))") auto

declare Search_loop.simps [simp del]

definition Search :: "string \<Rightarrow> Diff \<Rightarrow> real \<Rightarrow> panic + Edit option" where
  "Search source diff threshold =
     (let lines = trimSplit source
      in if length lines = 0 then Inr None
         else
           let offsets = offsets_from 0 lines;
               searchLines = trimSplit (diff_Search diff);
               nSearch = int (length searchLines)
           in if nSearch = 0 \<or> nSearch > int (length lines) then Inr None
              else
                let startIdx = wrap64 (diff_Line diff - 1);
                    startIdx = max 0 (min startIdx (int (length lines) - 1))
                in Search_loop lines offsets diff nSearch threshold startIdx 0)"

section \<open>Parse\<close>

subsection \<open>Library functions used by the lexer and the parser\<close>

text \<open>
  \<open>strings.Lines\<close>: the lines of the input, each with its terminating newline; a final
  line without a newline is yielded as it is, and an empty input yields nothing.
\<close>

fun lines_from :: "string \<Rightarrow> string \<Rightarrow> string list" where
  "lines_from line [] = (if line = [] then [] else [line])"
| "lines_from line (c # cs) =
     (if c = CHR 0x0A then (line @ [c]) # lines_from [] cs
      else lines_from (line @ [c]) cs)"

definition Lines :: "string \<Rightarrow> string list" where
  "Lines s = lines_from [] s"

definition HasPrefix :: "string \<Rightarrow> string \<Rightarrow> bool" where
  "HasPrefix s pre = (length pre \<le> length s \<and> take (length pre) s = pre)"

definition CutPrefix :: "string \<Rightarrow> string \<Rightarrow> string \<times> bool" where
  "CutPrefix s pre = (if HasPrefix s pre then (drop (length pre) s, True) else (s, False))"

text \<open>\<open>strings.TrimRight(s, cutset)\<close> for a cutset of ASCII bytes.\<close>

definition TrimRight :: "string \<Rightarrow> string \<Rightarrow> string" where
  "TrimRight s cutset = rev (dropWhile (\<lambda>c. c \<in> set cutset) (rev s))"

text \<open>
  \<open>strings.TrimSpace\<close> removes the leading and trailing white space code points of Unicode.
  On bytes, a leading (trailing) white space code point is a prefix (suffix) that is the
  UTF-8 encoding of one: the six ASCII ones, U+0085, U+00A0, U+1680, U+2000 to U+200A,
  U+2028, U+2029, U+202F, U+205F and U+3000.
\<close>

definition space_runes :: "string list" where
  "space_runes =
     [[CHR 0x09], [CHR 0x0A], [CHR 0x0B], [CHR 0x0C], [CHR 0x0D], [CHR 0x20],
      [CHR 0xC2, CHR 0x85], [CHR 0xC2, CHR 0xA0], [CHR 0xE1, CHR 0x9A, CHR 0x80],
      [CHR 0xE2, CHR 0x80, CHR 0x80], [CHR 0xE2, CHR 0x80, CHR 0x81],
      [CHR 0xE2, CHR 0x80, CHR 0x82], [CHR 0xE2, CHR 0x80, CHR 0x83],
      [CHR 0xE2, CHR 0x80, CHR 0x84], [CHR 0xE2, CHR 0x80, CHR 0x85],
      [CHR 0xE2, CHR 0x80, CHR 0x86], [CHR 0xE2, CHR 0x80, CHR 0x87],
      [CHR 0xE2, CHR 0x80, CHR 0x88], [CHR 0xE2, CHR 0x80, CHR 0x89],
      [CHR 0xE2, CHR 0x80, CHR 0x8A], [CHR 0xE2, CHR 0x80, CHR 0xA8],
      [CHR 0xE2, CHR 0x80, CHR 0xA9], [CHR 0xE2, CHR 0x80, CHR 0xAF],
      [CHR 0xE2, CHR 0x81, CHR 0x9F], [CHR 0xE3, CHR 0x80, CHR 0x80]]"

text \<open>Number of bytes of the code point of \<open>runes\<close> that \<open>s\<close> begins with; 0 when there is none.\<close>

definition rune_width :: "string list \<Rightarrow> string \<Rightarrow> nat" where
  "rune_width runes s =
     (case find (HasPrefix s) runes of None \<Rightarrow> 0 | Some r \<Rightarrow> min (length r) (length s))"

lemma rune_width_drop:
  "rune_width runes s \<noteq> 0 \<Longrightarrow> length (drop (rune_width runes s) s) < length s"
  by (cases "find (HasPrefix s) runes") (auto simp: rune_width_def)

function strip_runes :: "string list \<Rightarrow> string \<Rightarrow> string" where
  "strip_runes runes s =
     (if rune_width runes s = 0 then s else strip_runes runes (drop (rune_width runes s) s))"
  by pat_completeness auto
termination
  by (relation "measure (\<lambda>(runes, s). length s)") (use rune_width_drop in auto)

declare strip_runes.simps [simp del]

definition TrimSpace :: "string \<Rightarrow> string" where
  "TrimSpace s = rev (strip_runes (map rev space_runes) (rev (strip_runes space_runes s)))"

text \<open>
  \<open>strconv.Atoi\<close>: an optional sign, then one or more decimal digits, read left to right;
  the value must fit Go's 64-bit \<open>int\<close>. The two errors are \<open>strconv.ErrSyntax\<close> and
  \<open>strconv.ErrRange\<close>.
\<close>

datatype num_error = ErrSyntax | ErrRange

definition is_digit :: "char \<Rightarrow> bool" where
  "is_digit c = (48 \<le> (of_char c :: int) \<and> (of_char c :: int) \<le> 57)"

text \<open>
  The digits are accumulated in an unsigned 64-bit integer; the model accumulates in \<open>int\<close>
  and reports the range error where the 64-bit accumulator would overflow.
\<close>

fun parse_digits :: "int \<Rightarrow> string \<Rightarrow> num_error + int" where
  "parse_digits n [] = Inr n"
| "parse_digits n (c # cs) =
     (if \<not> is_digit c then Inl ErrSyntax
      else if n * 10 + (of_char c - 48) \<ge> 2 ^ 64 then Inl ErrRange
      else parse_digits (n * 10 + (of_char c - 48)) cs)"

definition Atoi :: "string \<Rightarrow> num_error + int" where
  "Atoi s =
     (let neg = (s \<noteq> [] \<and> hd s = CHR ''-'');
          ds = (if s \<noteq> [] \<and> (hd s = CHR ''-'' \<or> hd s = CHR ''+'') then tl s else s)
      in if ds = [] then Inl ErrSyntax
         else case parse_digits 0 ds of
                Inl err \<Rightarrow> Inl err
              | Inr un \<Rightarrow>
                  if \<not> neg \<and> un \<ge> 2 ^ 63 then Inl ErrRange
                  else if neg \<and> un > 2 ^ 63 then Inl ErrRange
                  else Inr (if neg then - un else un))"

subsection \<open>Lexer\<close>

datatype tokenType =
  startSearchType | textSeparatorType | endReplaceType | textType | invalidType | EOF

record token =
  tok_Type :: tokenType
  tok_Line :: int
  tok_Text :: string

definition startSearchPrefix :: string where
  "startSearchPrefix = ''<<<<<<< SEARCH''"

definition textSeparator :: string where
  "textSeparator = ''=======''"

definition endReplace :: string where
  "endReplace = ''>>>>>>> REPLACE''"

text \<open>The \<open>switch\<close> of \<open>tokenize\<close> for one line.\<close>

definition classify :: "int \<Rightarrow> string \<Rightarrow> token" where
  "classify lineNo line =
     (let trim = TrimRight line [CHR 0x0D, CHR 0x0A]
      in if HasPrefix line startSearchPrefix
         then \<lparr>tok_Type = startSearchType, tok_Line = lineNo, tok_Text = line\<rparr>
         else if trim = textSeparator
         then \<lparr>tok_Type = textSeparatorType, tok_Line = lineNo, tok_Text = line\<rparr>
         else if trim = endReplace
         then \<lparr>tok_Type = endReplaceType, tok_Line = lineNo, tok_Text = line\<rparr>
         else \<lparr>tok_Type = textType, tok_Line = lineNo, tok_Text = line\<rparr>)"

text \<open>
  The sequence \<open>tokenize\<close> yields, as the list of its tokens in order: one token per line,
  then the token \<open>EOF\<close>.
\<close>

fun tokenize_lines :: "int \<Rightarrow> string list \<Rightarrow> token list" where
  "tokenize_lines lineNo [] = [\<lparr>tok_Type = EOF, tok_Line = 0, tok_Text = []\<rparr>]"
| "tokenize_lines lineNo (line # ls) = classify lineNo line # tokenize_lines (lineNo + 1) ls"

definition tokenize :: "string \<Rightarrow> token list" where
  "tokenize input = tokenize_lines 0 (Lines input)"

subsection \<open>Parser\<close>

text \<open>
  The parser holds the current token and the pull function \<open>next\<close> of \<open>iter.Pull\<close>; the
  state of \<open>next\<close> is the list of tokens it has not handed out yet. Once that list is
  exhausted \<open>next\<close> reports \<open>false\<close> and \<open>read\<close> stores the invalid token.
\<close>

record parser =
  current :: token
  pending :: "token list"

text \<open>
  The errors \<open>fmt.Errorf\<close> builds in \<open>expect\<close> and \<open>parseStartSearch\<close>, with the values
  their messages print.
\<close>

datatype parse_error =
  Unexpected tokenType token
| MissingLineHint string
| BadLineNumber string num_error

definition read :: "parser \<Rightarrow> token \<times> parser" where
  "read p =
     (current p,
      case pending p of
        [] \<Rightarrow> p\<lparr>current := \<lparr>tok_Type = invalidType, tok_Line = 0, tok_Text = []\<rparr>\<rparr>
      | tok # toks \<Rightarrow> p\<lparr>current := tok, pending := toks\<rparr>)"

text \<open>
  \<open>expect\<close> returns the parser as well when it fails: \<open>parseDiff\<close> goes on after one of
  its failures.
\<close>

definition expect :: "tokenType \<Rightarrow> parser \<Rightarrow> (parse_error + token) \<times> parser" where
  "expect typ p =
     (let (tok, p') = read p
      in if tok_Type tok \<noteq> typ then (Inl (Unexpected typ tok), p') else (Inr tok, p'))"

text \<open>Tokens still to be consumed; every loop of the parser decreases it.\<close>

definition remaining :: "parser \<Rightarrow> nat" where
  "remaining p = length (pending p) + (if tok_Type (current p) = invalidType then 0 else 1)"

lemma remaining_read_le: "remaining (snd (read p)) \<le> remaining p"
  by (simp add: read_def remaining_def split: list.splits)

lemma remaining_read_less:
  "tok_Type (current p) \<noteq> invalidType \<Longrightarrow> remaining (snd (read p)) < remaining p"
  by (simp add: read_def remaining_def split: list.splits)

text \<open>
  \<open>for p.current.Type == textType && strings.TrimSpace(p.current.Text) == "" { p.read() }\<close>
\<close>

function skip_blank :: "parser \<Rightarrow> parser" where
  "skip_blank p =
     (if tok_Type (current p) = textType \<and> TrimSpace (tok_Text (current p)) = []
      then skip_blank (snd (read p)) else p)"
  by pat_completeness auto
termination
  by (relation "measure remaining") (auto intro: remaining_read_less)

declare skip_blank.simps [simp del]

definition parseStartSearch :: "parser \<Rightarrow> (parse_error + int) \<times> parser" where
  "parseStartSearch p =
     (case expect startSearchType (skip_blank p) of
        (Inl err, p') \<Rightarrow> (Inl err, p')
      | (Inr tok, p') \<Rightarrow>
          (let (suffix, _) = CutPrefix (tok_Text tok) startSearchPrefix;
               (lineStr, ok) = CutPrefix (TrimSpace suffix) ''line:''
           in if \<not> ok then (Inl (MissingLineHint (tok_Text tok)), p')
              else case Atoi lineStr of
                     Inl err \<Rightarrow> (Inl (BadLineNumber (tok_Text tok) err), p')
                   | Inr line \<Rightarrow> (Inr line, p')))"

text \<open>
  \<open>for p.current.Type == textType { body += p.current.Text; p.read() }\<close>, the loop that
  reads the search body and the replace body.
\<close>

function read_text :: "string \<Rightarrow> parser \<Rightarrow> string \<times> parser" where
  "read_text body p =
     (if tok_Type (current p) = textType
      then read_text (body @ tok_Text (current p)) (snd (read p)) else (body, p))"
  by pat_completeness auto
termination
  by (relation "measure (\<lambda>(body, p). remaining p)") (auto intro: remaining_read_less)

declare read_text.simps [simp del]

text \<open>
  \<open>parseDiff\<close>. The zero value \<open>Diff{}\<close> is \<open>\<lparr>0, "", ""\<rparr>\<close>. The last branch is the source's
  \<open>if _, err := p.expect(endReplaceType); err != nil { return Diff{}, nil }\<close>: no error
  is returned there.
\<close>

definition parseDiff :: "parser \<Rightarrow> (parse_error + Diff) \<times> parser" where
  "parseDiff p =
     (case parseStartSearch p of
        (Inl err, p1) \<Rightarrow> (Inl err, p1)
      | (Inr line, p1) \<Rightarrow>
          (let (search, p2) = read_text [] p1
           in case expect textSeparatorType p2 of
                (Inl err, p3) \<Rightarrow> (Inl err, p3)
              | (Inr _, p3) \<Rightarrow>
                  (let (replace, p4) = read_text [] p3
                   in case expect endReplaceType p4 of
                        (Inl err, p5) \<Rightarrow>
                          (Inr \<lparr>diff_Line = 0, diff_Search = [], diff_Replace = []\<rparr>, p5)
                      | (Inr _, p5) \<Rightarrow>
                          (Inr \<lparr>diff_Line = line, diff_Search = search,
                                diff_Replace = replace\<rparr>, p5))))"

lemma remaining_skip_blank: "remaining (skip_blank p) \<le> remaining p"
proof (induction p rule: skip_blank.induct)
  case (1 p)
  show ?case
  proof (cases "tok_Type (current p) = textType \<and> TrimSpace (tok_Text (current p)) = []")
    case True
    then have "remaining (skip_blank p) = remaining (skip_blank (snd (read p)))"
      by (subst skip_blank.simps) simp
    also have "\<dots> \<le> remaining (snd (read p))" using 1 True by simp
    also have "\<dots> \<le> remaining p" by (rule remaining_read_le)
    finally show ?thesis .
  next
    case False
    then have "skip_blank p = p" by (subst skip_blank.simps) auto
    then show ?thesis by simp
  qed
qed

lemma remaining_read_text: "read_text body p = (body', p') \<Longrightarrow> remaining p' \<le> remaining p"
proof (induction body p rule: read_text.induct)
  case (1 body p)
  show ?case
  proof (cases "tok_Type (current p) = textType")
    case True
    then have "read_text (body @ tok_Text (current p)) (snd (read p)) = (body', p')"
      using "1.prems" by (subst (asm) read_text.simps) simp
    then have "remaining p' \<le> remaining (snd (read p))" using 1 True by simp
    then show ?thesis using remaining_read_le [of p] by simp
  next
    case False
    then show ?thesis using "1.prems" by (subst (asm) read_text.simps) simp
  qed
qed

lemma remaining_expect_le: "remaining (snd (expect typ p)) \<le> remaining p"
  by (cases "read p") (use remaining_read_le [of p] in \<open>auto simp: expect_def\<close>)

lemma remaining_expect_less:
  "expect typ p = (Inr tok, p') \<Longrightarrow> typ \<noteq> invalidType \<Longrightarrow> remaining p' < remaining p"
  using remaining_read_less [of p]
  by (auto simp: expect_def read_def split: prod.splits if_splits)

lemma remaining_parseStartSearch:
  "parseStartSearch p = (Inr line, p') \<Longrightarrow> remaining p' < remaining p"
proof -
  assume a: "parseStartSearch p = (Inr line, p')"
  obtain r q where e: "expect startSearchType (skip_blank p) = (r, q)"
    by (cases "expect startSearchType (skip_blank p)")
  from a e obtain tok where r: "r = Inr tok" and q: "q = p'"
    by (auto simp: parseStartSearch_def split: sum.splits prod.splits if_splits)
  have "remaining p' < remaining (skip_blank p)"
    using remaining_expect_less [of startSearchType "skip_blank p" tok p'] e r q by simp
  then show ?thesis using remaining_skip_blank [of p] by simp
qed

lemma remaining_parseDiff:
  "parseDiff p = (Inr diff, p') \<Longrightarrow> remaining p' < remaining p"
proof -
  assume a: "parseDiff p = (Inr diff, p')"
  obtain r1 p1 where s1: "parseStartSearch p = (r1, p1)" by (cases "parseStartSearch p")
  from a obtain line where r1: "r1 = Inr line"
    by (cases r1) (simp_all add: parseDiff_def s1)
  obtain search p2 where s2: "read_text [] p1 = (search, p2)" by (cases "read_text [] p1")
  obtain r3 p3 where s3: "expect textSeparatorType p2 = (r3, p3)"
    by (cases "expect textSeparatorType p2")
  from a obtain tok3 where r3: "r3 = Inr tok3"
    by (cases r3) (simp_all add: parseDiff_def s1 r1 s2 s3)
  obtain replace p4 where s4: "read_text [] p3 = (replace, p4)" by (cases "read_text [] p3")
  obtain r5 p5 where s5: "expect endReplaceType p4 = (r5, p5)"
    by (cases "expect endReplaceType p4")
  from a have p5: "p5 = p'"
    by (cases r5) (simp_all add: parseDiff_def s1 r1 s2 s3 r3 s4 s5)
  have "remaining p5 \<le> remaining p4" using remaining_expect_le [of endReplaceType p4] s5 by simp
  also have "\<dots> \<le> remaining p3" using remaining_read_text [OF s4] .
  also have "\<dots> \<le> remaining p2" using remaining_expect_le [of textSeparatorType p2] s3 by simp
  also have "\<dots> \<le> remaining p1" using remaining_read_text [OF s2] .
  also have "\<dots> < remaining p" using remaining_parseStartSearch s1 r1 by simp
  finally show ?thesis using p5 by simp
qed

text \<open>\<open>for p.current.Type != EOF { ... diffs = append(diffs, diff) }\<close>\<close>

function Parse_loop :: "Diff list \<Rightarrow> parser \<Rightarrow> parse_error + Diff list" where
  "Parse_loop parsed p =
     (if tok_Type (current p) \<noteq> EOF
      then case parseDiff p of
             (Inl err, p') \<Rightarrow> Inl err
           | (Inr diff, p') \<Rightarrow> Parse_loop (parsed @ [diff]) p'
      else Inr parsed)"
  by pat_completeness auto
termination
  by (relation "measure (\<lambda>(parsed, p). remaining p)")
    (auto dest: remaining_parseDiff [OF sym])

declare Parse_loop.simps [simp del]

text \<open>
  \<open>Parse\<close>. The parser starts with the zero token as its current one (type
  \<open>startSearchType\<close>, the first constant of the enumeration); the first \<open>read\<close> replaces it.
\<close>

definition Parse :: "string \<Rightarrow> parse_error + Diff list" where
  "Parse input =
     (let p = \<lparr>current = \<lparr>tok_Type = startSearchType, tok_Line = 0, tok_Text = []\<rparr>,
               pending = tokenize input\<rparr>;
          p = snd (read p)
      in Parse_loop [] p)"

section \<open>Vocabulary of the claims about Search\<close>

text \<open>Byte offset at which line \<open>i\<close> begins: the total length of the lines before it.\<close>

definition line_offset :: "string list \<Rightarrow> nat \<Rightarrow> int" where
  "line_offset lines i = int (length (concat (take i lines)))"

text \<open>The \<open>n\<close> lines from line \<open>i\<close>, joined.\<close>

definition chunk_at :: "string list \<Rightarrow> nat \<Rightarrow> nat \<Rightarrow> string" where
  "chunk_at lines i n = concat (take n (drop i lines))"

text \<open>The edit that replaces the \<open>n\<close> lines from line \<open>i\<close> by the replacement of the diff.\<close>

definition range_edit :: "string list \<Rightarrow> Diff \<Rightarrow> nat \<Rightarrow> nat \<Rightarrow> Edit" where
  "range_edit lines diff i n =
     \<lparr>Start = line_offset lines i, End = line_offset lines (i + n), Text = diff_Replace diff\<rparr>"

text \<open>The zero-based hint, clamped as \<open>Search\<close> clamps it.\<close>

definition hinted_start :: "string list \<Rightarrow> Diff \<Rightarrow> nat" where
  "hinted_start lines diff =
     nat (max 0 (min (wrap64 (diff_Line diff - 1)) (int (length lines) - 1)))"

text \<open>
  Position of the candidate beginning at line \<open>i\<close> in the search order around \<open>start\<close>: the
  candidate \<open>start - r\<close> comes at position \<open>2 r\<close>, the candidate \<open>start + r\<close> right after it.
\<close>

definition search_pos :: "nat \<Rightarrow> nat \<Rightarrow> nat" where
  "search_pos start i = (if i \<le> start then 2 * (start - i) else 2 * (i - start) + 1)"

section \<open>Properties of Apply\<close>

lemma sort_Slice_pair:
  "sort_Slice [a, b] = (if Start a < Start b then [b, a] else [a, b])"
  by (simp add: sort_Slice_def)

lemma sort_Slice_perm:
  assumes "distinct (map Start edits)" and "mset edits' = mset edits"
  shows "sort_Slice edits' = sort_Slice edits"
proof -
  have "set edits' = set edits"
    using assms(2) by (rule mset_eq_setD)
  moreover have "inj_on Start (set edits)"
    using assms(1) by (simp add: distinct_map)
  ultimately have inj: "inj_on (\<lambda>e. - Start e) (set edits')"
    by (auto simp: inj_on_def)
  show ?thesis
    unfolding sort_Slice_def
    by (rule sort_key_inj_key_eq) (use assms(2) inj in simp_all)
qed

lemma pairwise_separated_set:
  "pairwise_separated es \<Longrightarrow> distinct es \<Longrightarrow> a \<in> set es \<Longrightarrow> b \<in> set es \<Longrightarrow> a \<noteq> b
     \<Longrightarrow> separated a b"
  by (induction es) (auto simp: list_all_iff separated_def)

text \<open>
  On a list sorted by descending, pairwise distinct \<open>Start\<close>, whose ranges are separated and
  end at or before \<open>lastEnd\<close>, every check of the loop passes.
\<close>

lemma apply_loop_succeeds:
  assumes "sorted (map (\<lambda>e. - Start e) ys)" and "distinct (map Start ys)"
    and "\<forall>e\<in>set ys. 0 \<le> Start e \<and> Start e \<le> End e \<and> End e \<le> lastEnd"
    and "lastEnd \<le> int (length data)"
    and "\<forall>a\<in>set ys. \<forall>b\<in>set ys. a \<noteq> b \<longrightarrow> separated a b"
  shows "\<exists>r. apply_loop data lastEnd ys = Inr r"
  using assms
proof (induction ys arbitrary: data lastEnd)
  case Nil
  then show ?case by simp
next
  case (Cons e es)
  let ?data' = "take (nat (Start e)) data @ Text e @ drop (nat (End e)) data"
  have e: "0 \<le> Start e" "Start e \<le> End e" "End e \<le> lastEnd"
    using Cons.prems(3) by auto
  have below: "End x \<le> Start e" if "x \<in> set es" for x
  proof -
    have le: "Start x \<le> Start e" using Cons.prems(1) that by auto
    have "Start e \<notin> Start ` set es" using Cons.prems(2) by simp
    then have ne: "Start x \<noteq> Start e" using that by (metis imageI)
    have "x \<noteq> e" using Cons.prems(2) that by auto
    then have "separated e x" using Cons.prems(5) that by auto
    then show ?thesis using le ne e by (auto simp: separated_def)
  qed
  have "\<exists>r. apply_loop ?data' (Start e) es = Inr r"
  proof (rule Cons.IH)
    show "sorted (map (\<lambda>e. - Start e) es)" using Cons.prems(1) by simp
    show "distinct (map Start es)" using Cons.prems(2) by simp
    show "\<forall>x\<in>set es. 0 \<le> Start x \<and> Start x \<le> End x \<and> End x \<le> Start e"
      using Cons.prems(3) below by auto
    show "Start e \<le> int (length ?data')" using e Cons.prems(4) by auto
    show "\<forall>a\<in>set es. \<forall>b\<in>set es. a \<noteq> b \<longrightarrow> separated a b"
      using Cons.prems(5) by auto
  qed
  then show ?case using e Cons.prems(4) by auto
qed

lemma Apply_succeeds:
  assumes "distinct (map Start edits)" and "list_all (in_bounds source) edits"
    and "pairwise_separated edits"
  shows "\<exists>r. Apply source edits = Inr r"
proof (cases "edits = []")
  case True
  then show ?thesis by (simp add: Apply_def)
next
  case False
  let ?ys = "sort_Slice edits"
  have set: "set ?ys = set edits" by (simp add: sort_Slice_def)
  have d: "distinct edits" using assms(1) by (simp add: distinct_map)
  have "\<exists>r. apply_loop source (int (length source)) ?ys = Inr r"
  proof (rule apply_loop_succeeds)
    show "sorted (map (\<lambda>e. - Start e) ?ys)" by (simp add: sort_Slice_def)
    have "mset (map Start ?ys) = mset (map Start edits)" by (simp add: sort_Slice_def)
    then show "distinct (map Start ?ys)" using assms(1) by (metis mset_eq_imp_distinct_iff)
    show "\<forall>e\<in>set ?ys. 0 \<le> Start e \<and> Start e \<le> End e \<and> End e \<le> int (length source)"
      using assms(2) set by (auto simp: list_all_iff in_bounds_def)
    show "int (length source) \<le> int (length source)" by simp
    show "\<forall>a\<in>set ?ys. \<forall>b\<in>set ?ys. a \<noteq> b \<longrightarrow> separated a b"
      using pairwise_separated_set [OF assms(3) d] set by auto
  qed
  then show ?thesis using False by (simp add: Apply_def)
qed

text \<open>
  Claim C9. For every document, \<open>Apply\<close> of the document and the empty edit list returns the
  document unchanged and no error.
\<close>

theorem Apply_empty_identity: "Apply source [] = Inr source"
  by (simp add: Apply_def)

theorem Apply_empty_identity_witness: "Apply ''abc'' [] = Inr ''abc''"
  using Apply_empty_identity [of "''abc''"] by simp

text \<open>
  Claim C2, as stated, fails: the range check comes before the overlap check and compares
  with the buffer as already spliced. In the document \<open>abcdef\<close> the edits \<open>[0,6)\<close> and
  \<open>[2,4)\<close>, both deletions, lie within the document and intersect; the edit \<open>[2,4)\<close> is
  spliced first, the buffer shrinks to four bytes, and \<open>[0,6)\<close> is then reported as an
  invalid range, not as an overlap.
\<close>

theorem Apply_overlap_counterexample:
  "in_bounds ''abcdef'' \<lparr>Start = 0, End = 6, Text = ''''\<rparr> \<and>
   in_bounds ''abcdef'' \<lparr>Start = 2, End = 4, Text = ''''\<rparr> \<and>
   overlaps \<lparr>Start = 0, End = 6, Text = ''''\<rparr> \<lparr>Start = 2, End = 4, Text = ''''\<rparr> \<and>
   Apply ''abcdef'' [\<lparr>Start = 0, End = 6, Text = ''''\<rparr>, \<lparr>Start = 2, End = 4, Text = ''''\<rparr>]
     = Inl (InvalidRange 0 6)"
  by (simp add: in_bounds_def overlaps_def Apply_def sort_Slice_def)

text \<open>
  Claim C2, amended. For every document and every pair of edits whose ranges intersect,
  \<open>Apply\<close> returns an error and no document, in either input order. When both edits lie
  within the document and the buffer left by splicing either of them is still at least as
  long as the other's \<open>End\<close>, the error is the overlap error, reported for the edit that is
  processed second (the one with the smaller \<open>Start\<close>; on equal \<open>Start\<close>, the later one of
  the input).
\<close>

theorem Apply_overlap_rejected:
  assumes "overlaps e1 e2"
  shows "(\<exists>err. Apply source [e1, e2] = Inl err) \<and> (\<exists>err. Apply source [e2, e1] = Inl err) \<and>
    (in_bounds source e1 \<and> in_bounds source e2 \<and>
     End e1 \<le> spliced_len source e2 \<and> End e2 \<le> spliced_len source e1 \<longrightarrow>
       Apply source [e1, e2] =
         (if Start e1 < Start e2 then Inl (Overlapping (Start e1) (End e1))
          else Inl (Overlapping (Start e2) (End e2))) \<and>
       Apply source [e2, e1] =
         (if Start e2 < Start e1 then Inl (Overlapping (Start e2) (End e2))
          else Inl (Overlapping (Start e1) (End e1))))"
proof (intro conjI impI)
  show "\<exists>err. Apply source [e1, e2] = Inl err"
    using assms by (auto simp: Apply_def sort_Slice_pair overlaps_def)
  show "\<exists>err. Apply source [e2, e1] = Inl err"
    using assms by (auto simp: Apply_def sort_Slice_pair overlaps_def)
next
  assume h: "in_bounds source e1 \<and> in_bounds source e2 \<and>
     End e1 \<le> spliced_len source e2 \<and> End e2 \<le> spliced_len source e1"
  show "Apply source [e1, e2] =
         (if Start e1 < Start e2 then Inl (Overlapping (Start e1) (End e1))
          else Inl (Overlapping (Start e2) (End e2)))"
    using assms h
    by (auto simp: Apply_def sort_Slice_pair overlaps_def in_bounds_def spliced_len_def)
  show "Apply source [e2, e1] =
         (if Start e2 < Start e1 then Inl (Overlapping (Start e2) (End e2))
          else Inl (Overlapping (Start e1) (End e1)))"
    using assms h
    by (auto simp: Apply_def sort_Slice_pair overlaps_def in_bounds_def spliced_len_def)
qed

theorem Apply_overlap_rejected_witness:
  "overlaps \<lparr>Start = 0, End = 3, Text = ''xyz''\<rparr> \<lparr>Start = 2, End = 4, Text = ''uv''\<rparr> \<and>
   Apply ''abcdef'' [\<lparr>Start = 0, End = 3, Text = ''xyz''\<rparr>, \<lparr>Start = 2, End = 4, Text = ''uv''\<rparr>]
     = Inl (Overlapping 0 3) \<and>
   Apply ''abcdef'' [\<lparr>Start = 2, End = 4, Text = ''uv''\<rparr>, \<lparr>Start = 0, End = 3, Text = ''xyz''\<rparr>]
     = Inl (Overlapping 0 3)"
proof -
  let ?a = "\<lparr>Start = 0, End = 3, Text = ''xyz''\<rparr>" and ?b = "\<lparr>Start = 2, End = 4, Text = ''uv''\<rparr>"
  have o: "overlaps ?a ?b" by (simp add: overlaps_def)
  have f: "in_bounds ''abcdef'' ?a \<and> in_bounds ''abcdef'' ?b \<and>
     End ?a \<le> spliced_len ''abcdef'' ?b \<and> End ?b \<le> spliced_len ''abcdef'' ?a"
    by (simp add: in_bounds_def spliced_len_def)
  show ?thesis
    using o f Apply_overlap_rejected [OF o, of "''abcdef''"] by simp
qed

text \<open>
  Claim C3, as stated, fails: two insertions at the same offset have empty, hence disjoint,
  ranges within the document, and the result depends on their input order.
\<close>

theorem Apply_permutation_counterexample:
  "list_all (in_bounds ''ab'') [\<lparr>Start = 1, End = 1, Text = ''x''\<rparr>, \<lparr>Start = 1, End = 1, Text = ''y''\<rparr>] \<and>
   pairwise_separated [\<lparr>Start = 1, End = 1, Text = ''x''\<rparr>, \<lparr>Start = 1, End = 1, Text = ''y''\<rparr>] \<and>
   \<not> overlaps \<lparr>Start = 1, End = 1, Text = ''x''\<rparr> \<lparr>Start = 1, End = 1, Text = ''y''\<rparr> \<and>
   Apply ''ab'' [\<lparr>Start = 1, End = 1, Text = ''x''\<rparr>, \<lparr>Start = 1, End = 1, Text = ''y''\<rparr>] = Inr ''ayxb'' \<and>
   Apply ''ab'' [\<lparr>Start = 1, End = 1, Text = ''y''\<rparr>, \<lparr>Start = 1, End = 1, Text = ''x''\<rparr>] = Inr ''axyb''"
  by (simp add: in_bounds_def separated_def overlaps_def Apply_def sort_Slice_def)

text \<open>
  Claim C3, amended. For every document and every list of edits whose \<open>Start\<close> values are
  pairwise distinct, \<open>Apply\<close> returns the same result for every permutation of the list;
  when moreover the ranges lie within the document and are pairwise non-overlapping (one
  ends no later than the other begins), that result is a document.
\<close>

theorem Apply_permutation:
  assumes "distinct (map Start edits)" and "mset edits' = mset edits"
  shows "Apply source edits' = Apply source edits \<and>
    (list_all (in_bounds source) edits \<and> pairwise_separated edits \<longrightarrow>
       (\<exists>result. Apply source edits = Inr result \<and> Apply source edits' = Inr result))"
proof -
  have "(length edits' = 0) = (length edits = 0)"
    using assms(2) by (metis mset_eq_length)
  then have eq: "Apply source edits' = Apply source edits"
    using sort_Slice_perm [OF assms] by (simp add: Apply_def)
  show ?thesis
    using eq Apply_succeeds [OF assms(1)] by auto
qed

theorem Apply_permutation_witness:
  "Apply ''abcdef'' [\<lparr>Start = 4, End = 6, Text = ''Z''\<rparr>, \<lparr>Start = 1, End = 2, Text = ''xy''\<rparr>] = Inr ''axycdZ'' \<and>
   Apply ''abcdef'' [\<lparr>Start = 1, End = 2, Text = ''xy''\<rparr>, \<lparr>Start = 4, End = 6, Text = ''Z''\<rparr>] = Inr ''axycdZ''"
proof -
  let ?a = "\<lparr>Start = 1, End = 2, Text = ''xy''\<rparr>" and ?b = "\<lparr>Start = 4, End = 6, Text = ''Z''\<rparr>"
  have d: "distinct (map Start [?a, ?b])" by simp
  have m: "mset [?b, ?a] = mset [?a, ?b]" by simp
  have v: "Apply ''abcdef'' [?a, ?b] = Inr ''axycdZ''"
    by (simp add: Apply_def sort_Slice_def)
  show ?thesis
    using Apply_permutation [OF d m, of "''abcdef''"] v by simp
qed

end
